theory Spec2Isabelle
  imports Main
begin

section \<open>Times, dates and the datetime arithmetic of the slot loop\<close>

text \<open>
  A Python \<^verbatim>\<open>datetime.time\<close> (hour, minute, second, microsecond, no time zone) is
  modelled by the number of microseconds since midnight; Python compares two such
  times exactly as these numbers compare. Every \<^verbatim>\<open>time\<close> object lies in
  \<open>[0, 24h)\<close>, which is \<open>valid_time\<close>. A \<^verbatim>\<open>datetime.date\<close> is its proleptic
  Gregorian ordinal (\<^verbatim>\<open>date.toordinal()\<close>); every \<^verbatim>\<open>date\<close> object lies between
  ordinal 1 (0001-01-01) and ordinal 3652059 (9999-12-31), which is \<open>valid_date\<close>.
  A \<^verbatim>\<open>datetime\<close> is the number of microseconds since the midnight that starts
  ordinal 0, so \<^verbatim>\<open>datetime.min\<close> is \<open>datetime_min\<close> and \<^verbatim>\<open>datetime.max\<close>
  (9999-12-31 23:59:59.999999) is \<open>datetime_max\<close>. The wall clock is a parameter
  \<open>today\<close>; the two calls of \<^verbatim>\<open>datetime.today()\<close> in \<^verbatim>\<open>available_slots\<close> are
  taken to fall on the same day.
\<close>

type_synonym pytime = int
type_synonym pydate = int
type_synonym pydatetime = int

definition day_us :: int where
  "day_us = 86400000000"

definition valid_time :: "pytime \<Rightarrow> bool" where
  "valid_time t = (0 \<le> t \<and> t < day_us)"

definition valid_date :: "pydate \<Rightarrow> bool" where
  "valid_date d = (1 \<le> d \<and> d \<le> 3652059)"

definition datetime_min :: pydatetime where
  "datetime_min = day_us"

definition datetime_max :: pydatetime where
  "datetime_max = 3652060 * day_us - 1"

definition hm :: "int \<Rightarrow> int \<Rightarrow> pytime" where
  \<comment> \<open>\<^verbatim>\<open>time(h, m)\<close>\<close>
  "hm h m = (h * 60 + m) * 60000000"

definition combine :: "pydate \<Rightarrow> pytime \<Rightarrow> pydatetime" where
  \<comment> \<open>\<^verbatim>\<open>datetime.combine(d, t)\<close>\<close>
  "combine d t = d * day_us + t"

definition time_of :: "pydatetime \<Rightarrow> pytime" where
  \<comment> \<open>\<^verbatim>\<open>dt.time()\<close>: the time of day, the date dropped\<close>
  "time_of dt = dt mod day_us"

text \<open>
  The date arithmetic raises \<^verbatim>\<open>OverflowError\<close> in two places.
  \<^verbatim>\<open>timedelta(minutes=n)\<close> normalises to days, seconds and microseconds and raises
  when the magnitude of the days, \<open>n div 1440\<close> (floor division), exceeds 999999999.
  \<^verbatim>\<open>datetime + timedelta\<close> raises when the sum leaves the range from
  \<^verbatim>\<open>datetime.min\<close> to \<^verbatim>\<open>datetime.max\<close>.
\<close>

datatype py_error = OverflowError

definition timedelta_ok :: "int \<Rightarrow> bool" where
  "timedelta_ok n = (- 999999999 \<le> n div 1440 \<and> n div 1440 \<le> 999999999)"

definition minutes_us :: "int \<Rightarrow> int" where
  \<comment> \<open>\<open>n\<close> minutes in microseconds\<close>
  "minutes_us n = n * 60000000"

definition timedelta_minutes :: "int \<Rightarrow> py_error + int" where
  \<comment> \<open>\<^verbatim>\<open>timedelta(minutes=n)\<close>\<close>
  "timedelta_minutes n = (if timedelta_ok n then Inr (minutes_us n) else Inl OverflowError)"

definition datetime_add :: "pydatetime \<Rightarrow> int \<Rightarrow> py_error + pydatetime" where
  \<comment> \<open>\<^verbatim>\<open>dt + delta\<close>\<close>
  "datetime_add dt delta =
     (if datetime_min \<le> dt + delta \<and> dt + delta \<le> datetime_max
      then Inr (dt + delta) else Inl OverflowError)"

definition plus_minutes :: "pydatetime \<Rightarrow> int \<Rightarrow> py_error + pydatetime" where
  \<comment> \<open>\<^verbatim>\<open>dt + timedelta(minutes=n)\<close>: the timedelta is built first, then added\<close>
  "plus_minutes dt n =
     (case timedelta_minutes n of Inl e \<Rightarrow> Inl e | Inr delta \<Rightarrow> datetime_add dt delta)"

definition weekday :: "pydate \<Rightarrow> int" where
  \<comment> \<open>\<^verbatim>\<open>date.weekday()\<close>: Monday is 0; ordinal 1 (0001-01-01) is a Monday\<close>
  "weekday d = (d + 6) mod 7"

section \<open>Schedule\<close>

text \<open>
  The fields of \<^verbatim>\<open>Schedule\<close> that the slot computation and the booking validation
  read. The foreign key \<^verbatim>\<open>doctor\<close> is the doctor's primary key; it is named
  \<open>sched_doctor\<close> because \<^verbatim>\<open>Appointment\<close> has a field \<^verbatim>\<open>doctor\<close> too.
  \<^verbatim>\<open>appointment_duration\<close> is an \<^verbatim>\<open>IntegerField\<close>: any integer can be stored, the
  validators (10 to 120) run only in \<^verbatim>\<open>full_clean\<close>, which \<^verbatim>\<open>Schedule.save\<close> does
  not call.
\<close>

record schedule =
  sched_doctor :: nat
  day_of_week :: int
  start_time :: pytime
  end_time :: pytime
  is_working :: bool
  appointment_duration :: int

text \<open>
  \<^verbatim>\<open>Schedule.available_slots\<close>:
  \<^verbatim>\<open>
    slots = []
    current = datetime.combine(datetime.today(), self.start_time)
    end = datetime.combine(datetime.today(), self.end_time)
    while current + timedelta(minutes=self.appointment_duration) <= end:
        slots.append(current.time())
        current += timedelta(minutes=self.appointment_duration)
    return slots
  \<close>
  The loop test and the loop body each build the timedelta and add it, and either
  may raise \<^verbatim>\<open>OverflowError\<close>; the result is \<open>Inl\<close> of the error or \<open>Inr\<close> of the
  returned list. The loop does not terminate when the duration is 0 and
  \<open>start \<le> end\<close>, so it is a partial function into \<open>option\<close>: \<open>None\<close> is "does not
  return".
\<close>

partial_function (option) slots_loop ::
  "int \<Rightarrow> pydatetime \<Rightarrow> pydatetime \<Rightarrow> pytime list \<Rightarrow> (py_error + pytime list) option" where
  "slots_loop n end_dt current slots =
     (case plus_minutes current n of
        Inl e \<Rightarrow> Some (Inl e)
      | Inr t \<Rightarrow>
          if t \<le> end_dt
          then (case plus_minutes current n of
                  Inl e \<Rightarrow> Some (Inl e)
                | Inr current' \<Rightarrow> slots_loop n end_dt current' (slots @ [time_of current]))
          else Some (Inr slots))"

definition available_slots :: "pydate \<Rightarrow> schedule \<Rightarrow> (py_error + pytime list) option" where
  "available_slots today s =
     slots_loop (appointment_duration s)
       (combine today (end_time s)) (combine today (start_time s)) []"

text \<open>
  Two notions the theorems about the loop use; neither is a function of the
  source. \<open>slot_count\<close> is the number of \<open>k\<close> with
  \<open>start + (k + 1) * duration \<le> end\<close> when the duration is positive.
  \<open>loop_in_range\<close> says that the loop's date arithmetic raises nothing: the
  timedelta can be built, and the last and largest sum the loop computes, today at
  \<open>start + (slot_count + 1) * duration\<close>, is not after \<^verbatim>\<open>datetime.max\<close>.
\<close>

definition slot_count :: "schedule \<Rightarrow> nat" where
  "slot_count s =
     nat ((end_time s - start_time s) div minutes_us (appointment_duration s))"

definition loop_in_range :: "pydate \<Rightarrow> schedule \<Rightarrow> bool" where
  "loop_in_range today s =
     (timedelta_ok (appointment_duration s) \<and>
      combine today (start_time s)
        + (int (slot_count s) + 1) * minutes_us (appointment_duration s) \<le> datetime_max)"

section \<open>Appointment and the tables\<close>

text \<open>
  \<^verbatim>\<open>STATUS_CHOICES\<close> has the three statuses below. Of \<^verbatim>\<open>Appointment\<close> the record keeps
  the primary key (\<open>None\<close> before the first save), the two foreign keys as primary
  keys, date, time and status; the other columns are never read by the validation.
  The date is always present: \<^verbatim>\<open>clean\<close> compares it before it tests it.
\<close>

datatype status = Pending | Confirmed | Cancelled

record appointment =
  pk :: "nat option"
  patient :: nat
  doctor :: nat
  appointment_date :: pydate
  appointment_time :: pytime
  status :: status

text \<open>
  The database: the rows of the two tables in the order a query returns them, and
  the next value of the appointment table's primary-key sequence.
\<close>

record database =
  appointments :: "appointment list"
  schedules :: "schedule list"
  next_pk :: nat

text \<open>
  \<^verbatim>\<open>Appointment.clean\<close> raises \<^verbatim>\<open>ValidationError\<close> with one of three messages; they
  are named as the specification names them:
  \<^item> \<open>SlotTaken\<close>: "an appointment with this doctor already exists at this time";
  \<^item> \<open>PastDate\<close>: "cannot book a past date";
  \<^item> \<open>OutOfHours\<close>: "the appointment time is not within the doctor's working hours".
\<close>

datatype validation_error = SlotTaken | PastDate | OutOfHours

datatype save_error = ValidationError validation_error | IntegrityError

definition is_active :: "appointment \<Rightarrow> bool" where
  \<comment> \<open>\<^verbatim>\<open>status in ['pending', 'confirmed']\<close>\<close>
  "is_active a = (status a \<in> set [Pending, Confirmed])"

definition slot_key :: "appointment \<Rightarrow> nat \<times> pydate \<times> pytime" where
  "slot_key a = (doctor a, appointment_date a, appointment_time a)"

definition own_pk :: "appointment \<Rightarrow> nat option" where
  \<comment> \<open>\<^verbatim>\<open>self.pk if self.pk else None\<close>: a primary key 0 is falsy\<close>
  "own_pk self = (case pk self of None \<Rightarrow> None | Some k \<Rightarrow> if k = 0 then None else Some k)"

definition exclude_pk :: "nat option \<Rightarrow> appointment list \<Rightarrow> appointment list" where
  \<comment> \<open>\<^verbatim>\<open>.exclude(pk=p)\<close>; \<^verbatim>\<open>exclude(pk=None)\<close> drops no row, every stored row has a key\<close>
  "exclude_pk p rows = (case p of None \<Rightarrow> rows | Some k \<Rightarrow> filter (\<lambda>r. pk r \<noteq> Some k) rows)"

definition conflicting_appointments :: "database \<Rightarrow> appointment \<Rightarrow> appointment list" where
  "conflicting_appointments db self =
     exclude_pk (own_pk self)
       (filter (\<lambda>r. doctor r = doctor self
                  \<and> appointment_date r = appointment_date self
                  \<and> appointment_time r = appointment_time self
                  \<and> status r \<in> set [Pending, Confirmed])
          (appointments db))"

fun first :: "'a list \<Rightarrow> 'a option" where
  \<comment> \<open>\<^verbatim>\<open>QuerySet.first()\<close>\<close>
  "first [] = None"
| "first (x # xs) = Some x"

definition working_schedule :: "database \<Rightarrow> appointment \<Rightarrow> schedule option" where
  \<comment> \<open>\<^verbatim>\<open>self.doctor.schedules.filter(day_of_week=day_of_week, is_working=True).first()\<close>\<close>
  "working_schedule db self =
     first (filter (\<lambda>s. sched_doctor s = doctor self
                        \<and> day_of_week s = weekday (appointment_date self)
                        \<and> is_working s)
              (schedules db))"

text \<open>
  \<^verbatim>\<open>Appointment.clean\<close>, with \<open>today\<close> for \<^verbatim>\<open>timezone.now().date()\<close>. The three checks
  are in the order of the source. A date object and a model instance are truthy, so
  \<^verbatim>\<open>if self.appointment_date\<close> always holds and \<^verbatim>\<open>if schedule\<close> tests that a row was
  found.
\<close>

definition clean :: "pydate \<Rightarrow> database \<Rightarrow> appointment \<Rightarrow> validation_error + unit" where
  "clean today db self =
     (if status self \<in> set [Pending, Confirmed] \<and> conflicting_appointments db self \<noteq> []
      then Inl SlotTaken
      else if appointment_date self < today
      then Inl PastDate
      else (case working_schedule db self of
              None \<Rightarrow> Inr ()
            | Some schedule \<Rightarrow>
                if \<not> (start_time schedule \<le> appointment_time self
                       \<and> appointment_time self \<le> end_time schedule)
                then Inl OutOfHours
                else Inr ()))"

section \<open>Saving, creating, confirming and cancelling\<close>

text \<open>
  The constraint \<^verbatim>\<open>unique_appointment_time\<close> of \<^verbatim>\<open>Appointment.Meta\<close> is a partial unique
  index on (doctor, date, time) over the rows whose status is pending or confirmed.
  The database checks it, and the primary key, on every row it writes and refuses
  the statement with \<^verbatim>\<open>IntegrityError\<close>.
\<close>

definition index_violation :: "appointment list \<Rightarrow> appointment \<Rightarrow> bool" where
  "index_violation rows r =
     (is_active r \<and> slot_key r \<in> set (map slot_key (filter is_active rows)))"

definition db_insert :: "appointment \<Rightarrow> database \<Rightarrow> save_error + (appointment \<times> database)" where
  "db_insert r db =
     (let k = (case pk r of None \<Rightarrow> next_pk db | Some k \<Rightarrow> k);
          r' = r\<lparr>pk := Some k\<rparr>
      in if Some k \<in> set (map pk (appointments db)) \<or> index_violation (appointments db) r'
         then Inl IntegrityError
         else Inr (r', db\<lparr>appointments := appointments db @ [r'],
                          next_pk := (if pk r = None then Suc k else next_pk db)\<rparr>))"

definition db_update :: "nat \<Rightarrow> appointment \<Rightarrow> database \<Rightarrow> save_error + (appointment \<times> database)" where
  "db_update k r db =
     (if index_violation (filter (\<lambda>x. pk x \<noteq> Some k) (appointments db)) r
      then Inl IntegrityError
      else Inr (r, db\<lparr>appointments := map (\<lambda>x. if pk x = Some k then r else x) (appointments db)\<rparr>))"

text \<open>
  \<^verbatim>\<open>Model.save\<close> of the framework (the call \<^verbatim>\<open>super().save\<close>): an instance
  with a primary key updates its row when one exists and \<^verbatim>\<open>force_insert\<close> is off;
  otherwise the instance is inserted.
\<close>

definition model_save :: "bool \<Rightarrow> appointment \<Rightarrow> database \<Rightarrow> save_error + (appointment \<times> database)" where
  "model_save force_insert self db =
     (case pk self of
        None \<Rightarrow> db_insert self db
      | Some k \<Rightarrow>
          if \<not> force_insert \<and> Some k \<in> set (map pk (appointments db))
          then db_update k self db
          else db_insert self db)"

text \<open>
  \<^verbatim>\<open>full_clean\<close> is the framework's validation driver. Of its steps only \<^verbatim>\<open>clean\<close> is
  code of the repository, and it is the step modelled. The framework's other steps
  (the field validators, its own check of the declared constraints) reject some
  further instances; they accept every instance used as a concrete input below.
\<close>

definition full_clean :: "pydate \<Rightarrow> database \<Rightarrow> appointment \<Rightarrow> validation_error + unit" where
  "full_clean today db self = clean today db self"

text \<open>
  \<^verbatim>\<open>Appointment.save\<close>:
  \<^verbatim>\<open>
    self.full_clean()
    super().save(...)
  \<close>
  The result is the saved instance (its primary key set) and the new database.
\<close>

definition save :: "bool \<Rightarrow> pydate \<Rightarrow> database \<Rightarrow> appointment \<Rightarrow> save_error + (appointment \<times> database)" where
  "save force_insert today db self =
     (case full_clean today db self of
        Inl e \<Rightarrow> Inl (ValidationError e)
      | Inr u \<Rightarrow> model_save force_insert self db)"

text \<open>
  The booking view \<^verbatim>\<open>create_appointment_htmx\<close> calls
  \<^verbatim>\<open>Appointment.objects.create(patient=..., doctor=doctor, appointment_date=...,
  appointment_time=..., reason=..., status='pending')\<close>, which builds the instance and
  saves it with \<^verbatim>\<open>force_insert=True\<close>. On any exception the view renders the error
  and the database is as before.
\<close>

definition new_appointment :: "nat \<Rightarrow> nat \<Rightarrow> pydate \<Rightarrow> pytime \<Rightarrow> appointment" where
  "new_appointment p d date time =
     \<lparr>pk = None, patient = p, doctor = d, appointment_date = date,
      appointment_time = time, status = Pending\<rparr>"

definition create_appointment_htmx ::
  "pydate \<Rightarrow> database \<Rightarrow> nat \<Rightarrow> nat \<Rightarrow> pydate \<Rightarrow> pytime \<Rightarrow> save_error + (appointment \<times> database)" where
  "create_appointment_htmx today db p d date time =
     save True today db (new_appointment p d date time)"

text \<open>
  The admin actions \<^verbatim>\<open>confirm_appointments\<close> and \<^verbatim>\<open>cancel_appointments\<close> are
  \<^verbatim>\<open>queryset.update(status=...)\<close> on the selected rows: one UPDATE statement that
  does not call \<^verbatim>\<open>save\<close> or \<^verbatim>\<open>clean\<close>. The database writes the selected rows one
  after the other, checks the partial unique index at each, and on a violation the
  whole statement fails and changes nothing.
\<close>

fun update_rows ::
  "nat list \<Rightarrow> status \<Rightarrow> appointment list \<Rightarrow> appointment list \<Rightarrow> save_error + appointment list" where
  "update_rows sel st written [] = Inr written"
| "update_rows sel st written (r # rest) =
     (if pk r \<in> set (map Some sel)
      then (if index_violation (written @ rest) (r\<lparr>status := st\<rparr>)
            then Inl IntegrityError
            else update_rows sel st (written @ [r\<lparr>status := st\<rparr>]) rest)
      else update_rows sel st (written @ [r]) rest)"

definition queryset_update_status :: "nat list \<Rightarrow> status \<Rightarrow> database \<Rightarrow> save_error + database" where
  "queryset_update_status sel st db =
     (case update_rows sel st [] (appointments db) of
        Inl e \<Rightarrow> Inl e
      | Inr rows \<Rightarrow> Inr (db\<lparr>appointments := rows\<rparr>))"

definition confirm_appointments :: "nat list \<Rightarrow> database \<Rightarrow> save_error + database" where
  "confirm_appointments sel db = queryset_update_status sel Confirmed db"

definition cancel_appointments :: "nat list \<Rightarrow> database \<Rightarrow> save_error + database" where
  "cancel_appointments sel db = queryset_update_status sel Cancelled db"

text \<open>
  The database states the appointment operations produce from an empty appointment
  table: bookings through the view, the two admin actions, a save of any instance
  (the admin's add and change forms), and any change of the schedule table.
\<close>

inductive reachable :: "database \<Rightarrow> bool" where
  init: "reachable \<lparr>appointments = [], schedules = ss, next_pk = n\<rparr>"
| booked: "reachable db \<Longrightarrow> create_appointment_htmx today db p d date time = Inr (a, db')
     \<Longrightarrow> reachable db'"
| confirmed: "reachable db \<Longrightarrow> confirm_appointments sel db = Inr db' \<Longrightarrow> reachable db'"
| cancelled: "reachable db \<Longrightarrow> cancel_appointments sel db = Inr db' \<Longrightarrow> reachable db'"
| saved: "reachable db \<Longrightarrow> save force_insert today db self = Inr (a, db') \<Longrightarrow> reachable db'"
| rescheduled: "reachable db \<Longrightarrow> reachable (db\<lparr>schedules := ss\<rparr>)"

definition unique_active :: "appointment list \<Rightarrow> bool" where
  \<comment> \<open>at most one pending or confirmed row for each (doctor, date, time)\<close>
  "unique_active rows = distinct (map slot_key (filter is_active rows))"

section \<open>The three checks as conditions\<close>

text \<open>
  The conditions under which each check of \<^verbatim>\<open>clean\<close> fires, written over the
  tables rather than over query results. They are not source functions; the
  theorems relate \<open>clean\<close> to them.
\<close>

definition slot_taken :: "database \<Rightarrow> appointment \<Rightarrow> bool" where
  "slot_taken db a =
     (is_active a \<and>
      (\<exists>r \<in> set (appointments db).
          slot_key r = slot_key a \<and> is_active r \<and> (own_pk a = None \<or> pk r \<noteq> own_pk a)))"

definition out_of_hours :: "database \<Rightarrow> appointment \<Rightarrow> bool" where
  "out_of_hours db a =
     (\<exists>s. working_schedule db a = Some s \<and>
          \<not> (start_time s \<le> appointment_time a \<and> appointment_time a \<le> end_time s))"

definition db_invariant :: "database \<Rightarrow> bool" where
  "db_invariant db = (unique_active (appointments db) \<and> distinct (map pk (appointments db)))"

section \<open>Concrete inputs\<close>

text \<open>
  Day 739924 is Wednesday 2026-11-04 (\<open>weekday 739924 = 2\<close>), day 739923 the Tuesday
  before it and day 739917 the Wednesday a week earlier. Doctor 1 works on
  Wednesdays from 09:00 to 12:00 in slots of 30 minutes.
\<close>

definition wednesday_schedule :: schedule where
  "wednesday_schedule =
     \<lparr>sched_doctor = 1, day_of_week = 2, start_time = hm 9 0, end_time = hm 12 0,
      is_working = True, appointment_duration = 30\<rparr>"

definition empty_db :: database where
  "empty_db = \<lparr>appointments = [], schedules = [], next_pk = 1\<rparr>"

definition clinic_db :: database where
  "clinic_db = \<lparr>appointments = [], schedules = [wednesday_schedule], next_pk = 1\<rparr>"

definition yesterday_db :: database where
  "yesterday_db =
     \<lparr>appointments = [\<lparr>pk = Some 1, patient = 7, doctor = 1, appointment_date = 739923,
                        appointment_time = hm 10 0, status = Pending\<rparr>],
      schedules = [wednesday_schedule], next_pk = 2\<rparr>"

definition last_week_db :: database where
  "last_week_db =
     \<lparr>appointments = [\<lparr>pk = Some 1, patient = 7, doctor = 1, appointment_date = 739917,
                        appointment_time = hm 8 0, status = Confirmed\<rparr>],
      schedules = [wednesday_schedule], next_pk = 2\<rparr>"

definition booked_db :: database where
  "booked_db =
     \<lparr>appointments = [\<lparr>pk = Some 1, patient = 7, doctor = 1, appointment_date = 739924,
                        appointment_time = hm 10 0, status = Pending\<rparr>],
      schedules = [wednesday_schedule], next_pk = 2\<rparr>"

definition cancelled_request :: appointment where
  "cancelled_request =
     \<lparr>pk = None, patient = 8, doctor = 1, appointment_date = 739924,
      appointment_time = hm 10 0, status = Cancelled\<rparr>"

lemmas fixture_defs = wednesday_schedule_def empty_db_def clinic_db_def yesterday_db_def
  last_week_db_def booked_db_def new_appointment_def

lemmas clean_eval = clean_def conflicting_appointments_def exclude_pk_def own_pk_def
  working_schedule_def weekday_def hm_def

lemmas save_eval = save_def full_clean_def model_save_def db_insert_def index_violation_def
  is_active_def Let_def


section \<open>The slot loop returns the arithmetic progression\<close>

lemma div_pos_iff_le: "0 < (d::int) \<Longrightarrow> (c + d \<le> e) = (1 \<le> (e - c) div d)"
proof -
  assume d: "0 < d"
  have "(1 \<le> (e - c) div d) = (0 < (e - c) div d)" by linarith
  also have "\<dots> = (d \<le> e - c)" using d by (rule pos_imp_zdiv_pos_iff)
  finally show ?thesis by linarith
qed

lemma div_shift: "0 < (d::int) \<Longrightarrow> (e - (c + d)) div d = (e - c) div d - 1"
proof -
  assume d: "0 < d"
  have step: "(a + d) div d = a div d + 1" for a :: int
    by (rule div_add_self2) (use d in simp)
  have "e - c = (e - (c + d)) + d" by simp
  then have "(e - c) div d = (e - (c + d)) div d + 1"
    using step [of "e - (c + d)"] by presburger
  then show ?thesis by simp
qed

lemma minutes_pos: "0 < n \<Longrightarrow> 0 < minutes_us n"
  by (simp add: minutes_us_def)

lemma plus_minutes_in_range:
  "timedelta_ok n \<Longrightarrow> datetime_min \<le> c + minutes_us n \<Longrightarrow> c + minutes_us n \<le> datetime_max
   \<Longrightarrow> plus_minutes c n = Inr (c + minutes_us n)"
  by (simp add: plus_minutes_def timedelta_minutes_def datetime_add_def)

lemma slots_loop_returns:
  assumes pos: "0 < d" and ok: "timedelta_ok d"
  shows "nat ((e - c) div minutes_us d) = n \<Longrightarrow> datetime_min \<le> c \<Longrightarrow>
    c + (int n + 1) * minutes_us d \<le> datetime_max \<Longrightarrow>
    slots_loop d e c acc =
      Some (Inr (acc @ map (\<lambda>k. time_of (c + int k * minutes_us d)) [0..<n]))"
proof (induction n arbitrary: c acc)
  case 0
  have dpos: "0 < minutes_us d" using pos by (rule minutes_pos)
  from 0 have next_ok: "plus_minutes c d = Inr (c + minutes_us d)"
    using dpos by (intro plus_minutes_in_range ok) simp_all
  from 0 have "\<not> c + minutes_us d \<le> e"
    using dpos by (simp add: div_pos_iff_le)
  then show ?case
    by (subst slots_loop.simps) (simp add: next_ok)
next
  case (Suc n)
  have dpos: "0 < minutes_us d" using pos by (rule minutes_pos)
  have "0 \<le> (int n + 1) * minutes_us d" using dpos by simp
  with Suc.prems have upper: "c + minutes_us d \<le> datetime_max"
    by (simp add: algebra_simps)
  from Suc.prems upper have next_ok: "plus_minutes c d = Inr (c + minutes_us d)"
    using dpos by (intro plus_minutes_in_range ok) simp_all
  from Suc.prems have le: "c + minutes_us d \<le> e"
    using dpos by (simp add: div_pos_iff_le)
  have n': "nat ((e - (c + minutes_us d)) div minutes_us d) = n"
    using Suc.prems(1) dpos by (simp add: div_shift)
  have lo: "datetime_min \<le> c + minutes_us d"
    using Suc.prems(2) dpos by simp
  have hi: "c + minutes_us d + (int n + 1) * minutes_us d \<le> datetime_max"
    using Suc.prems(3) by (simp add: algebra_simps)
  from Suc.IH [OF n' lo hi, of "acc @ [time_of c]"] le show ?case
    by (subst slots_loop.simps) (simp add: next_ok map_upt_Suc algebra_simps del: upt_Suc)
qed

lemma combine_lower: "valid_date today \<Longrightarrow> 0 \<le> t \<Longrightarrow> datetime_min \<le> combine today t"
proof -
  assume "valid_date today" and t: "0 \<le> t"
  then have "1 * day_us \<le> today * day_us"
    by (intro mult_right_mono) (simp_all add: valid_date_def day_us_def)
  with t show ?thesis
    by (simp add: datetime_min_def combine_def)
qed

lemma available_slots_returns:
  assumes "0 < appointment_duration s" and "valid_date today" and "0 \<le> start_time s"
    and "loop_in_range today s"
  shows "available_slots today s =
    Some (Inr (map (\<lambda>k. time_of (combine today (start_time s)
                 + int k * minutes_us (appointment_duration s)))
           [0..<slot_count s]))"
proof -
  have "combine today (end_time s) - combine today (start_time s) = end_time s - start_time s"
    by (simp add: combine_def)
  then have n: "nat ((combine today (end_time s) - combine today (start_time s))
      div minutes_us (appointment_duration s)) = slot_count s"
    by (simp add: slot_count_def)
  from assms(4) have ok: "timedelta_ok (appointment_duration s)"
    and hi: "combine today (start_time s)
        + (int (slot_count s) + 1) * minutes_us (appointment_duration s) \<le> datetime_max"
    by (simp_all add: loop_in_range_def)
  from slots_loop_returns [OF assms(1) ok n combine_lower [OF assms(2,3)] hi, of "[]"]
  show ?thesis by (simp add: available_slots_def)
qed

lemma mult_le_iff_le_div:
  assumes "0 < (d::int)"
  shows "(m * d \<le> x) = (m \<le> x div d)"
proof
  assume "m * d \<le> x"
  then have "(m * d) div d \<le> x div d"
    using assms by (rule zdiv_mono1)
  then show "m \<le> x div d"
    using assms by simp
next
  assume "m \<le> x div d"
  then have "m * d \<le> (x div d) * d"
    using assms by (simp add: mult_right_mono)
  also have "\<dots> \<le> x"
  proof -
    have "x = (x div d) * d + x mod d" by simp
    moreover have "0 \<le> x mod d" using assms by simp
    ultimately show ?thesis by linarith
  qed
  finally show "m * d \<le> x" .
qed

lemma slot_index_iff:
  assumes "0 < d"
  shows "(k < nat ((e - c) div d)) = (c + (int k + 1) * d \<le> (e::int))"
proof -
  have "(k < nat ((e - c) div d)) = (int k + 1 \<le> (e - c) div d)" by linarith
  also have "\<dots> = ((int k + 1) * d \<le> e - c)"
    using assms by (simp only: mult_le_iff_le_div)
  finally show ?thesis by linarith
qed

lemma time_of_combine:
  "0 \<le> x \<Longrightarrow> x < day_us \<Longrightarrow> time_of (combine today x) = x"
  by (simp add: time_of_def combine_def)

lemma slot_time:
  assumes d: "0 < appointment_duration s"
    and v: "valid_time (start_time s)" "valid_time (end_time s)"
    and k: "k < slot_count s"
  shows "time_of (combine today (start_time s) + int k * minutes_us (appointment_duration s))
      = start_time s + int k * minutes_us (appointment_duration s)"
    and "start_time s + int k * minutes_us (appointment_duration s)
      + minutes_us (appointment_duration s) \<le> end_time s"
proof -
  let ?d = "minutes_us (appointment_duration s)"
  have dpos: "0 < ?d" using d by (rule minutes_pos)
  have le: "start_time s + (int k + 1) * ?d \<le> end_time s"
    using k slot_index_iff [OF dpos, of k "end_time s" "start_time s"]
    by (simp add: slot_count_def)
  then show "start_time s + int k * ?d + ?d \<le> end_time s"
    by (simp add: algebra_simps)
  have "0 \<le> int k * ?d" using dpos by simp
  then have lo: "0 \<le> start_time s + int k * ?d"
    using v by (simp add: valid_time_def)
  have hi: "start_time s + int k * ?d < day_us"
    using le dpos v by (simp add: valid_time_def algebra_simps)
  have "combine today (start_time s) + int k * ?d = combine today (start_time s + int k * ?d)"
    by (simp add: combine_def)
  then show "time_of (combine today (start_time s) + int k * ?d) = start_time s + int k * ?d"
    using time_of_combine [OF lo hi] by simp
qed

lemma available_slots_times:
  assumes "0 < appointment_duration s" "valid_date today"
    "valid_time (start_time s)" "valid_time (end_time s)" "loop_in_range today s"
  shows "available_slots today s =
    Some (Inr (map (\<lambda>k. start_time s + int k * minutes_us (appointment_duration s))
           [0..<slot_count s]))"
proof -
  from assms(3) have "0 \<le> start_time s" by (simp add: valid_time_def)
  from available_slots_returns [OF assms(1,2) this assms(5)] show ?thesis
    using assms(1,3,4) by (simp add: slot_time(1))
qed

lemma validated_duration_in_range:
  assumes "valid_date today" "today < 3652059" "valid_time (start_time s)"
    "valid_time (end_time s)" "0 < appointment_duration s" "appointment_duration s \<le> 1440"
  shows "loop_in_range today s"
proof -
  let ?d = "minutes_us (appointment_duration s)"
  have dpos: "0 < ?d" using assms(5) by (rule minutes_pos)
  have dle: "?d \<le> day_us" using assms(6) by (simp add: minutes_us_def day_us_def)
  have "0 \<le> appointment_duration s div 1440"
    using assms(5) by (simp add: pos_imp_zdiv_nonneg_iff)
  moreover have "appointment_duration s div 1440 \<le> 1440 div 1440"
    using assms(6) by (intro zdiv_mono1) simp_all
  ultimately have ok: "timedelta_ok (appointment_duration s)"
    by (simp add: timedelta_ok_def)
  have sum: "start_time s + int (slot_count s) * ?d < day_us"
  proof (cases "slot_count s")
    case 0
    then show ?thesis using assms(3) by (simp add: valid_time_def)
  next
    case (Suc m)
    then have "m < slot_count s" by simp
    from slot_time(2) [OF assms(5) assms(3,4) this] Suc assms(4) dpos show ?thesis
      by (simp add: valid_time_def algebra_simps)
  qed
  have "(today + 2) * day_us \<le> 3652060 * day_us"
    using assms(2) by (intro mult_right_mono) (simp_all add: day_us_def)
  with sum dle have "combine today (start_time s) + (int (slot_count s) + 1) * ?d \<le> datetime_max"
    by (simp add: combine_def datetime_max_def algebra_simps)
  with ok show ?thesis by (simp add: loop_in_range_def)
qed

lemma upt6: "[0..<6] = [0, 1, 2, 3, 4, 5::nat]"
  by (simp add: upt_rec)

lemma example_slots:
  assumes "valid_date today"
  shows "available_slots today \<lparr>sched_doctor = d, day_of_week = w, start_time = hm 9 0,
      end_time = hm 12 0, is_working = b, appointment_duration = 30\<rparr>
   = Some (Inr [hm 9 0, hm 9 30, hm 10 0, hm 10 30, hm 11 0, hm 11 30])"
proof -
  let ?s = "\<lparr>sched_doctor = d, day_of_week = w, start_time = hm 9 0,
      end_time = hm 12 0, is_working = b, appointment_duration = 30\<rparr>"
  have n: "slot_count ?s = 6"
    by (simp add: slot_count_def hm_def minutes_us_def)
  have "today * day_us \<le> 3652059 * day_us"
    using assms by (intro mult_right_mono) (simp_all add: valid_date_def day_us_def)
  then have "loop_in_range today ?s"
    unfolding loop_in_range_def n
    by (simp add: timedelta_ok_def combine_def datetime_max_def hm_def minutes_us_def day_us_def)
  with assms have "available_slots today ?s =
    Some (Inr (map (\<lambda>k. start_time ?s + int k * minutes_us (appointment_duration ?s))
           [0..<slot_count ?s]))"
    by (intro available_slots_times) (simp_all add: valid_time_def hm_def day_us_def)
  then show ?thesis
    unfolding n upt6 by (simp add: hm_def minutes_us_def)
qed





section \<open>The checks of clean\<close>

lemma first_filter_None: "(first (filter P xs) = None) = (\<not> (\<exists>x \<in> set xs. P x))"
  by (induction xs) auto

lemma first_filter_Some: "first (filter P xs) = Some x \<Longrightarrow> x \<in> set xs \<and> P x"
  by (induction xs) (auto split: if_splits)

lemma conflicting_nonempty:
  "(conflicting_appointments db a \<noteq> []) =
     (\<exists>r \<in> set (appointments db).
         slot_key r = slot_key a \<and> is_active r \<and> (own_pk a = None \<or> pk r \<noteq> own_pk a))"
  by (cases "own_pk a")
    (auto simp: conflicting_appointments_def exclude_pk_def slot_key_def is_active_def
      filter_empty_conv)

lemma clean_slot_taken: "slot_taken db a \<Longrightarrow> clean today db a = Inl SlotTaken"
  by (simp add: clean_def slot_taken_def conflicting_nonempty is_active_def)

lemma clean_past_date:
  "\<not> slot_taken db a \<Longrightarrow> appointment_date a < today \<Longrightarrow> clean today db a = Inl PastDate"
  by (simp add: clean_def slot_taken_def conflicting_nonempty is_active_def)

lemma clean_hours:
  assumes "\<not> slot_taken db a" and "\<not> appointment_date a < today"
  shows "clean today db a = (if out_of_hours db a then Inl OutOfHours else Inr ())"
proof -
  from assms(1) have free: "\<not> (status a \<in> set [Pending, Confirmed]
      \<and> conflicting_appointments db a \<noteq> [])"
    unfolding slot_taken_def conflicting_nonempty is_active_def by simp
  show ?thesis
  proof (cases "working_schedule db a")
    case None
    then show ?thesis
      using free assms(2) unfolding clean_def out_of_hours_def by simp
  next
    case (Some s)
    then show ?thesis
      using free assms(2) unfolding clean_def out_of_hours_def by auto
  qed
qed

lemma clean_cases:
  "clean today db a =
     (if slot_taken db a then Inl SlotTaken
      else if appointment_date a < today then Inl PastDate
      else if out_of_hours db a then Inl OutOfHours
      else Inr ())"
  by (simp add: clean_slot_taken clean_past_date clean_hours)

section \<open>The writes keep one active appointment per slot\<close>

lemma unique_active_insert_mid:
  "unique_active (xs @ r # ys) = (unique_active (xs @ ys) \<and> \<not> index_violation (xs @ ys) r)"
  by (auto simp: unique_active_def index_violation_def)

lemma unique_active_append1:
  "unique_active (rows @ [r]) = (unique_active rows \<and> \<not> index_violation rows r)"
  using unique_active_insert_mid [of rows r "[]"] by simp

lemma unique_active_Cons:
  "unique_active (r # rows) = (unique_active rows \<and> \<not> index_violation rows r)"
  using unique_active_insert_mid [of "[]" r rows] by simp

lemma db_insert_invariant:
  assumes "db_insert r db = Inr (a, db')" and "db_invariant db"
  shows "db_invariant db'"
  using assms
  by (auto simp: db_insert_def db_invariant_def Let_def unique_active_append1
      split: if_splits)

lemma index_violation_iff:
  "index_violation rows r =
     (is_active r \<and> (\<exists>y \<in> set rows. is_active y \<and> slot_key y = slot_key r))"
  unfolding index_violation_def by (simp add: image_iff) metis

lemma replace_row_unique:
  assumes "distinct (map pk rows)" and "unique_active rows"
    and "\<not> index_violation (filter (\<lambda>x. pk x \<noteq> Some k) rows) r"
  shows "unique_active (map (\<lambda>x. if pk x = Some k then r else x) rows)"
  using assms
proof (induction rows)
  case Nil
  then show ?case by (simp add: unique_active_def)
next
  case (Cons x xs)
  show ?case
  proof (cases "pk x = Some k")
    case True
    with Cons.prems(1) have "\<forall>y \<in> set xs. pk y \<noteq> Some k"
      by (auto simp: image_iff)
    then have same: "map (\<lambda>x. if pk x = Some k then r else x) xs = xs"
      and rest: "filter (\<lambda>x. pk x \<noteq> Some k) xs = xs"
      by (simp_all add: map_idI)
    from Cons.prems(2) have "unique_active xs"
      by (simp add: unique_active_Cons)
    moreover from Cons.prems(3) True rest have "\<not> index_violation xs r"
      by simp
    ultimately show ?thesis
      using True same by (simp add: unique_active_Cons)
  next
    case False
    let ?f = "\<lambda>x. if pk x = Some k then r else x"
    from Cons.prems (3) False
    have nv: "\<not> index_violation (x # filter (\<lambda>x. pk x \<noteq> Some k) xs) r"
      by simp
    then have "\<not> index_violation (filter (\<lambda>x. pk x \<noteq> Some k) xs) r"
      by (auto simp: index_violation_def)
    with Cons.IH Cons.prems(1,2) have ih: "unique_active (map ?f xs)"
      by (simp add: unique_active_Cons)
    have "\<not> index_violation (map ?f xs) x"
    proof
      assume "index_violation (map ?f xs) x"
      then obtain y where y: "y \<in> set xs" "is_active x" "is_active (?f y)"
          "slot_key (?f y) = slot_key x"
        by (auto simp: index_violation_def)
      show False
      proof (cases "pk y = Some k")
        case True
        with y have "is_active r" "slot_key r = slot_key x" by simp_all
        with y(2) nv show False
          by (auto simp: index_violation_def)
      next
        case False
        with y have "index_violation xs x"
          unfolding index_violation_iff by auto
        with Cons.prems(2) show False
          by (simp add: unique_active_Cons)
      qed
    qed
    with ih False show ?thesis
      by (simp add: unique_active_Cons)
  qed
qed

lemma db_update_invariant:
  assumes "db_update k r db = Inr (a, db')" and "pk r = Some k" and "db_invariant db"
  shows "db_invariant db'"
proof -
  from assms(1) have nv: "\<not> index_violation (filter (\<lambda>x. pk x \<noteq> Some k) (appointments db)) r"
    and db': "appointments db' = map (\<lambda>x. if pk x = Some k then r else x) (appointments db)"
    by (auto simp: db_update_def split: if_splits)
  have "map pk (appointments db') = map pk (appointments db)"
    unfolding db' using assms(2) by (induction "appointments db") auto
  moreover have "unique_active (appointments db')"
    unfolding db' using assms(3) nv by (intro replace_row_unique) (simp_all add: db_invariant_def)
  ultimately show ?thesis
    using assms(3) by (simp add: db_invariant_def)
qed

lemma model_save_invariant:
  assumes "model_save fi self db = Inr (a, db')" and "db_invariant db"
  shows "db_invariant db'"
  using assms
  by (auto simp: model_save_def split: option.splits if_splits
      intro: db_insert_invariant db_update_invariant)

lemma save_invariant:
  assumes "save fi today db self = Inr (a, db')" and "db_invariant db"
  shows "db_invariant db'"
  using assms
  by (auto simp: save_def split: sum.splits intro: model_save_invariant)

lemma update_rows_invariant:
  "update_rows sel st written rest = Inr rows' \<Longrightarrow> unique_active (written @ rest) \<Longrightarrow>
   unique_active rows' \<and> map pk rows' = map pk (written @ rest)"
proof (induction sel st written rest rule: update_rows.induct)
  case (1 sel st written)
  then show ?case by simp
next
  case (2 sel st written r rest)
  from "2.prems"(2) have mid: "unique_active (written @ rest)"
    by (simp add: unique_active_insert_mid)
  show ?case
  proof (cases "pk r \<in> set (map Some sel)")
    case True
    with "2.prems"(1) have nv: "\<not> index_violation (written @ rest) (r\<lparr>status := st\<rparr>)"
      and run: "update_rows sel st (written @ [r\<lparr>status := st\<rparr>]) rest = Inr rows'"
      by (auto split: if_splits)
    from mid nv have "unique_active ((written @ [r\<lparr>status := st\<rparr>]) @ rest)"
      by (simp add: unique_active_insert_mid)
    with "2.IH"(1) [OF True nv run] show ?thesis by simp
  next
    case False
    with "2.prems"(1) have run: "update_rows sel st (written @ [r]) rest = Inr rows'"
      by simp
    from "2.IH"(2) [OF False run] "2.prems"(2) show ?thesis by simp
  qed
qed

lemma queryset_update_invariant:
  assumes "queryset_update_status sel st db = Inr db'" and "db_invariant db"
  shows "db_invariant db'"
proof -
  from assms(1) obtain rows' where run: "update_rows sel st [] (appointments db) = Inr rows'"
    and db': "db' = db\<lparr>appointments := rows'\<rparr>"
    by (auto simp: queryset_update_status_def split: sum.splits)
  from update_rows_invariant [OF run] assms(2) show ?thesis
    by (simp add: db' db_invariant_def)
qed

lemma reachable_invariant: "reachable db \<Longrightarrow> db_invariant db"
proof (induction rule: reachable.induct)
  case (init ss n)
  then show ?case by (simp add: db_invariant_def unique_active_def)
next
  case (booked db today p d date time a db')
  then show ?case
    unfolding create_appointment_htmx_def by (blast intro: save_invariant)
next
  case (confirmed db sel db')
  then show ?case
    unfolding confirm_appointments_def by (blast intro: queryset_update_invariant)
next
  case (cancelled db sel db')
  then show ?case
    unfolding cancel_appointments_def by (blast intro: queryset_update_invariant)
next
  case (saved db force_insert today self a db')
  then show ?case by (blast intro: save_invariant)
next
  case (rescheduled db ss)
  then show ?case by (simp add: db_invariant_def)
qed

lemma distinct_map_filter_le1:
  "distinct (map f xs) \<Longrightarrow> length (filter (\<lambda>x. f x = k) xs) \<le> 1"
proof (induction xs)
  case Nil
  then show ?case by simp
next
  case (Cons x xs)
  show ?case
  proof (cases "f x = k")
    case True
    with Cons.prems have "k \<notin> f ` set xs" by simp
    then have "\<forall>y \<in> set xs. f y \<noteq> k" by blast
    then have "filter (\<lambda>x. f x = k) xs = []" by (simp add: filter_empty_conv)
    with True show ?thesis by simp
  next
    case False
    with Cons show ?thesis by simp
  qed
qed

lemma unique_active_count:
  assumes "unique_active rows"
  shows "length (filter (\<lambda>r. is_active r \<and> slot_key r = key) rows) \<le> 1"
proof -
  from assms have "distinct (map slot_key (filter is_active rows))"
    by (simp only: unique_active_def)
  then have "length (filter (\<lambda>r. slot_key r = key) (filter is_active rows)) \<le> 1"
    by (rule distinct_map_filter_le1)
  then show ?thesis
    by (simp only: filter_filter)
qed

lemma create_refused:
  assumes "r \<in> set (appointments db)" "is_active r" "slot_key r = (d, date, time)"
  shows "create_appointment_htmx today db p d date time = Inl (ValidationError SlotTaken)"
proof -
  have "slot_taken db (new_appointment p d date time)"
    using assms
    by (auto simp: slot_taken_def new_appointment_def is_active_def own_pk_def slot_key_def)
  then show ?thesis
    by (simp add: create_appointment_htmx_def save_def full_clean_def clean_slot_taken)
qed

lemma create_result:
  assumes "create_appointment_htmx today db p d date time = Inr (a, db')"
  shows "a = (new_appointment p d date time)\<lparr>pk := Some (next_pk db)\<rparr>
     \<and> appointments db' = appointments db @ [a]"
proof -
  from assms have "model_save True (new_appointment p d date time) db = Inr (a, db')"
    by (simp add: create_appointment_htmx_def save_def split: sum.splits)
  then have "db_insert (new_appointment p d date time) db = Inr (a, db')"
    by (simp add: model_save_def new_appointment_def)
  then have "a = (new_appointment p d date time)\<lparr>pk := Some (next_pk db)\<rparr>"
    and "db' = db\<lparr>appointments := appointments db @ [(new_appointment p d date time)\<lparr>pk := Some (next_pk db)\<rparr>],
                          next_pk := Suc (next_pk db)\<rparr>"
    unfolding db_insert_def Let_def new_appointment_def
    by (clarsimp split: if_splits)+
  then show ?thesis
    by simp
qed

section \<open>Slot computation\<close>










section \<open>Booking validation\<close>

text \<open>
  Claim C1 as stated fails. The database \<open>empty_db\<close> has no schedule at all, and a
  request for doctor 1 dated today passes \<^verbatim>\<open>clean\<close>: the source tests
  \<^verbatim>\<open>if schedule:\<close> and skips the working-hours check when the query finds no row.
\<close>

theorem no_schedule_counterexample:
  "schedules empty_db = [] \<and>
   clean 739924 empty_db (new_appointment 7 1 739924 (hm 10 0)) = Inr ()"
  by (simp add: fixture_defs clean_eval)

text \<open>
  Claim C1, amended. If no working schedule exists for the doctor on the weekday of
  the date, validation never fails with OutOfHours: the working-hours check is
  skipped, and a request that is neither SlotTaken nor PastDate is accepted.
\<close>

theorem no_schedule_skips_hours_check:
  assumes "\<not> (\<exists>s \<in> set (schedules db). sched_doctor s = doctor a
              \<and> day_of_week s = weekday (appointment_date a) \<and> is_working s)"
  shows "clean today db a \<noteq> Inl OutOfHours
     \<and> (\<not> slot_taken db a \<and> \<not> appointment_date a < today \<longrightarrow> clean today db a = Inr ())"
proof -
  from assms have "working_schedule db a = None"
    unfolding working_schedule_def first_filter_None by simp
  then have "\<not> out_of_hours db a"
    by (simp add: out_of_hours_def)
  then show ?thesis
    by (simp add: clean_cases)
qed

theorem no_schedule_skips_hours_check_witness:
  "clean 739924 clinic_db (new_appointment 7 1 739925 (hm 8 0)) = Inr ()"
proof -
  let ?a = "new_appointment 7 1 739925 (hm 8 0)"
  have none: "\<not> (\<exists>s \<in> set (schedules clinic_db). sched_doctor s = doctor ?a
              \<and> day_of_week s = weekday (appointment_date ?a) \<and> is_working s)"
    by (simp add: fixture_defs weekday_def)
  have free: "\<not> slot_taken clinic_db ?a \<and> \<not> appointment_date ?a < 739924"
    by (simp add: slot_taken_def fixture_defs)
  from no_schedule_skips_hours_check [OF none, of 739924] free show ?thesis
    by blast
qed

text \<open>
  Claim C2 as stated fails. A request for Wednesday of last week at 08:00 is both
  past-dated and outside the working hours 09:00 to 12:00 of that weekday; \<^verbatim>\<open>clean\<close>
  rejects it with PastDate, not OutOfHours.
\<close>

theorem check_order_counterexample:
  "working_schedule clinic_db (new_appointment 7 1 739917 (hm 8 0)) = Some wednesday_schedule
   \<and> \<not> start_time wednesday_schedule \<le> hm 8 0
   \<and> (739917::int) < 739924
   \<and> clean 739924 clinic_db (new_appointment 7 1 739917 (hm 8 0)) = Inl PastDate"
  by (simp add: fixture_defs clean_eval)

text \<open>
  Claim C2, amended. \<^verbatim>\<open>clean\<close> performs its three checks in the order SlotTaken
  (only for an instance whose own status is pending or confirmed), then PastDate,
  then OutOfHours (only when a working schedule exists for the weekday), and reports
  the first check that fails in that order; a request that fails none is accepted.
\<close>

theorem check_order:
  "clean today db a =
     (if slot_taken db a then Inl SlotTaken
      else if appointment_date a < today then Inl PastDate
      else if out_of_hours db a then Inl OutOfHours
      else Inr ())"
proof (cases "slot_taken db a")
  case True
  then show ?thesis
    by (simp add: clean_slot_taken)
next
  case free: False
  show ?thesis
  proof (cases "appointment_date a < today")
    case True
    with free show ?thesis
      by (simp add: clean_past_date)
  next
    case False
    with free show ?thesis
      by (simp add: clean_hours)
  qed
qed

theorem check_order_witness:
  "(739917::int) < 739924
   \<and> \<not> start_time wednesday_schedule \<le> hm 8 0
   \<and> clean 739924 last_week_db (new_appointment 8 1 739917 (hm 8 0)) = Inl SlotTaken"
proof -
  have "slot_taken last_week_db (new_appointment 8 1 739917 (hm 8 0))"
    by (simp add: slot_taken_def fixture_defs is_active_def slot_key_def own_pk_def)
  with check_order [of 739924 last_week_db "new_appointment 8 1 739917 (hm 8 0)"]
  have "clean 739924 last_week_db (new_appointment 8 1 739917 (hm 8 0)) = Inl SlotTaken"
    by simp
  then show ?thesis
    by (simp add: wednesday_schedule_def hm_def)
qed

text \<open>
  Claim C3 as stated fails. On a Wednesday with the schedule 09:00 to 12:00 in slots
  of 30 minutes, neither 12:00 (the schedule's end) nor 09:15 (between two slots) is
  a slot start-time, and \<^verbatim>\<open>clean\<close> accepts both: the source compares the time with
  the closed interval from start to end and never consults the slots.
\<close>

theorem hours_check_counterexample:
  "working_schedule clinic_db (new_appointment 7 1 739924 (hm 12 0)) = Some wednesday_schedule
   \<and> available_slots 739924 wednesday_schedule
       = Some (Inr [hm 9 0, hm 9 30, hm 10 0, hm 10 30, hm 11 0, hm 11 30])
   \<and> hm 12 0 \<notin> set [hm 9 0, hm 9 30, hm 10 0, hm 10 30, hm 11 0, hm 11 30]
   \<and> hm 9 15 \<notin> set [hm 9 0, hm 9 30, hm 10 0, hm 10 30, hm 11 0, hm 11 30]
   \<and> clean 739924 clinic_db (new_appointment 7 1 739924 (hm 12 0)) = Inr ()
   \<and> clean 739924 clinic_db (new_appointment 7 1 739924 (hm 9 15)) = Inr ()"
proof -
  have "valid_date 739924"
    by (simp add: valid_date_def)
  then have "available_slots 739924 wednesday_schedule
       = Some (Inr [hm 9 0, hm 9 30, hm 10 0, hm 10 30, hm 11 0, hm 11 30])"
    unfolding wednesday_schedule_def by (rule example_slots)
  then show ?thesis
    by (simp add: fixture_defs clean_eval)
qed

text \<open>
  Claim C3, amended. When the weekday has a working schedule, validation rejects
  every requested time outside the closed interval from the schedule's start to its
  end, and it reports OutOfHours exactly when the time is outside that interval and
  neither the SlotTaken nor the PastDate check fires first.
\<close>

theorem hours_check_interval:
  assumes "working_schedule db a = Some s"
  shows "(\<not> (start_time s \<le> appointment_time a \<and> appointment_time a \<le> end_time s)
            \<longrightarrow> (\<exists>e. clean today db a = Inl e))
     \<and> ((clean today db a = Inl OutOfHours) =
          (\<not> slot_taken db a \<and> \<not> appointment_date a < today
           \<and> \<not> (start_time s \<le> appointment_time a \<and> appointment_time a \<le> end_time s)))"
proof -
  have "out_of_hours db a =
      (\<not> (start_time s \<le> appointment_time a \<and> appointment_time a \<le> end_time s))"
    using assms by (simp add: out_of_hours_def)
  then show ?thesis
    by (simp add: clean_cases)
qed

theorem hours_check_interval_witness:
  "clean 739924 clinic_db (new_appointment 7 1 739924 (hm 12 1)) = Inl OutOfHours"
proof -
  let ?a = "new_appointment 7 1 739924 (hm 12 1)"
  have s: "working_schedule clinic_db ?a = Some wednesday_schedule"
    by (simp add: fixture_defs working_schedule_def weekday_def)
  have "\<not> slot_taken clinic_db ?a \<and> \<not> appointment_date ?a < 739924
      \<and> \<not> (start_time wednesday_schedule \<le> appointment_time ?a
            \<and> appointment_time ?a \<le> end_time wednesday_schedule)"
    by (simp add: slot_taken_def fixture_defs hm_def)
  with hours_check_interval [OF s, of 739924] show ?thesis
    by blast
qed

text \<open>
  Claim C7 as stated fails. Yesterday's appointment of doctor 1 at 10:00 is still
  pending; a new request for the same doctor, day and time is dated strictly before
  today and is rejected with SlotTaken, not PastDate: the SlotTaken check runs
  first.
\<close>

theorem past_date_counterexample:
  "appointment_date (new_appointment 8 1 739923 (hm 10 0)) < 739924
   \<and> clean 739924 yesterday_db (new_appointment 8 1 739923 (hm 10 0)) = Inl SlotTaken"
  by (simp add: fixture_defs clean_eval)

text \<open>
  Claim C7, amended. Validation rejects every request whose date is strictly before
  today; the rejection is PastDate exactly when the date is strictly before today
  and the SlotTaken check, which runs first, does not fire. A request dated today is
  never rejected with PastDate.
\<close>

theorem past_date_rejected:
  "(appointment_date a < today \<longrightarrow> (\<exists>e. clean today db a = Inl e))
   \<and> ((clean today db a = Inl PastDate) = (appointment_date a < today \<and> \<not> slot_taken db a))
   \<and> (appointment_date a = today \<longrightarrow> clean today db a \<noteq> Inl PastDate)"
proof (intro conjI impI)
  assume past: "appointment_date a < today"
  show "\<exists>e. clean today db a = Inl e"
  proof (cases "slot_taken db a")
    case True
    then show ?thesis by (simp add: clean_slot_taken)
  next
    case False
    with past show ?thesis by (simp add: clean_past_date)
  qed
next
  show "(clean today db a = Inl PastDate) = (appointment_date a < today \<and> \<not> slot_taken db a)"
  proof (cases "slot_taken db a")
    case True
    then show ?thesis by (simp add: clean_slot_taken)
  next
    case free: False
    show ?thesis
    proof (cases "appointment_date a < today")
      case True
      with free show ?thesis by (simp add: clean_past_date)
    next
      case False
      with free show ?thesis by (simp add: clean_hours)
    qed
  qed
next
  assume "appointment_date a = today"
  then show "clean today db a \<noteq> Inl PastDate"
    by (simp add: clean_cases)
qed

theorem past_date_rejected_witness:
  "clean 739924 clinic_db (new_appointment 7 1 739923 (hm 10 0)) = Inl PastDate"
proof -
  let ?a = "new_appointment 7 1 739923 (hm 10 0)"
  have "appointment_date ?a < 739924 \<and> \<not> slot_taken clinic_db ?a"
    by (simp add: slot_taken_def fixture_defs)
  with past_date_rejected [of ?a 739924 clinic_db] show ?thesis
    by blast
qed

text \<open>
  Claim C8. A proposed appointment is the instance the booking view builds: no
  primary key yet, status pending. Its validation fails with SlotTaken if and only if
  some stored appointment with the same doctor, date and time has status pending or
  confirmed. In particular a second booking of the same doctor, date and time right
  after a successful first one is refused with SlotTaken, and stored appointments
  that are cancelled do not cause the rejection.
\<close>

theorem slot_taken_iff_active_booking:
  "((clean today db (new_appointment p d date time) = Inl SlotTaken) =
      (\<exists>r \<in> set (appointments db). doctor r = d \<and> appointment_date r = date
          \<and> appointment_time r = time \<and> status r \<in> {Pending, Confirmed}))
   \<and> (create_appointment_htmx today db p d date time = Inr (a, db') \<longrightarrow>
        create_appointment_htmx today' db' p' d date time = Inl (ValidationError SlotTaken))
   \<and> ((\<forall>r \<in> set (appointments db). doctor r = d \<and> appointment_date r = date
          \<and> appointment_time r = time \<longrightarrow> status r = Cancelled) \<longrightarrow>
        clean today db (new_appointment p d date time) \<noteq> Inl SlotTaken)"
proof -
  let ?a = "new_appointment p d date time"
  have taken: "slot_taken db ?a =
      (\<exists>r \<in> set (appointments db). doctor r = d \<and> appointment_date r = date
          \<and> appointment_time r = time \<and> status r \<in> {Pending, Confirmed})"
    by (auto simp: slot_taken_def new_appointment_def is_active_def own_pk_def slot_key_def)
  have iff: "(clean today db ?a = Inl SlotTaken) = slot_taken db ?a"
    by (simp add: clean_cases)
  have second: "create_appointment_htmx today' db' p' d date time = Inl (ValidationError SlotTaken)"
    if "create_appointment_htmx today db p d date time = Inr (a, db')"
  proof -
    from create_result [OF that] have "a \<in> set (appointments db')" "is_active a"
        "slot_key a = (d, date, time)"
      by (simp_all add: new_appointment_def is_active_def slot_key_def)
    then show ?thesis by (rule create_refused)
  qed
  from taken iff second show ?thesis by auto
qed

theorem slot_taken_iff_active_booking_witness:
  "create_appointment_htmx 739924 clinic_db 7 1 739924 (hm 10 0)
      = Inr (\<lparr>pk = Some 1, patient = 7, doctor = 1, appointment_date = 739924,
               appointment_time = hm 10 0, status = Pending\<rparr>, booked_db)
   \<and> create_appointment_htmx 739925 booked_db 8 1 739924 (hm 10 0)
      = Inl (ValidationError SlotTaken)"
proof -
  have first: "create_appointment_htmx 739924 clinic_db 7 1 739924 (hm 10 0)
      = Inr (\<lparr>pk = Some 1, patient = 7, doctor = 1, appointment_date = 739924,
               appointment_time = hm 10 0, status = Pending\<rparr>, booked_db)"
    by (simp add: create_appointment_htmx_def save_eval fixture_defs clean_eval)
  with slot_taken_iff_active_booking [of 739924 clinic_db 7 1 739924 "hm 10 0" _ booked_db 739925 8]
  show ?thesis by blast
qed

section \<open>The uniqueness invariant and save\<close>

text \<open>
  Claim C9. In every database state reachable through the appointment operations
  (booking, confirming, cancelling, saving an instance), each doctor, date and time
  has at most one appointment whose status is pending or confirmed; and a booking
  for a doctor, date and time that already has such an appointment is refused.
\<close>

theorem one_active_per_slot:
  "(reachable db \<longrightarrow>
      (\<forall>d date time. length (filter (\<lambda>r. is_active r \<and> slot_key r = (d, date, time))
                                (appointments db)) \<le> 1))
   \<and> ((\<exists>r \<in> set (appointments db). is_active r \<and> slot_key r = (d', date', time')) \<longrightarrow>
        create_appointment_htmx today db p d' date' time' = Inl (ValidationError SlotTaken))"
proof (intro conjI impI allI)
  fix d date time
  assume "reachable db"
  then have "unique_active (appointments db)"
    using reachable_invariant by (simp add: db_invariant_def)
  then show "length (filter (\<lambda>r. is_active r \<and> slot_key r = (d, date, time))
                                (appointments db)) \<le> 1"
    by (rule unique_active_count)
next
  assume "\<exists>r \<in> set (appointments db). is_active r \<and> slot_key r = (d', date', time')"
  then show "create_appointment_htmx today db p d' date' time' = Inl (ValidationError SlotTaken)"
    by (blast intro: create_refused)
qed

theorem one_active_per_slot_witness:
  "reachable booked_db
   \<and> length (filter (\<lambda>r. is_active r \<and> slot_key r = (1, 739924, hm 10 0))
              (appointments booked_db)) \<le> 1"
proof -
  have "reachable clinic_db"
    unfolding clinic_db_def by (rule reachable.init)
  moreover have "create_appointment_htmx 739924 clinic_db 7 1 739924 (hm 10 0)
      = Inr (\<lparr>pk = Some 1, patient = 7, doctor = 1, appointment_date = 739924,
               appointment_time = hm 10 0, status = Pending\<rparr>, booked_db)"
    by (simp add: create_appointment_htmx_def save_eval fixture_defs clean_eval)
  ultimately have reach: "reachable booked_db"
    by (rule reachable.booked)
  with one_active_per_slot [of booked_db] show ?thesis
    by blast
qed

text \<open>
  Claim C10 as stated fails. Doctor 1 has a pending appointment today at 10:00, and
  an instance for the same doctor, day and time whose status is cancelled is saved
  all the same: \<^verbatim>\<open>clean\<close> looks for conflicting appointments only
  \<^verbatim>\<open>if self.status in ['pending', 'confirmed']\<close>.
\<close>

theorem saved_counterexample:
  "save False 739924 booked_db cancelled_request
      = Inr (cancelled_request\<lparr>pk := Some 2\<rparr>,
             booked_db\<lparr>appointments := appointments booked_db @ [cancelled_request\<lparr>pk := Some 2\<rparr>],
                       next_pk := 3\<rparr>)
   \<and> appointments booked_db
      = [\<lparr>pk = Some 1, patient = 7, doctor = 1, appointment_date = 739924,
           appointment_time = hm 10 0, status = Pending\<rparr>]
   \<and> slot_key cancelled_request = (1, 739924, hm 10 0)"
  by (simp add: save_eval slot_key_def cancelled_request_def fixture_defs clean_eval)

text \<open>
  Claim C10, amended. \<^verbatim>\<open>save\<close> runs the validation before it persists, so for every
  successfully saved appointment, at save time its date was not strictly before
  today; if its own status is pending or confirmed, no other pending or confirmed
  appointment shared its doctor, date and time; and when a working schedule existed
  for its weekday, its time lay within that schedule's working hours.
\<close>

theorem saved_was_validated:
  assumes "save force_insert today db self = Inr (a, db')"
  shows "\<not> appointment_date self < today
     \<and> (is_active self \<longrightarrow>
          (\<forall>r \<in> set (appointments db). is_active r \<and> slot_key r = slot_key self
               \<longrightarrow> pk r = pk self))
     \<and> (\<forall>s. working_schedule db self = Some s \<longrightarrow>
          start_time s \<le> appointment_time self \<and> appointment_time self \<le> end_time s)"
proof -
  from assms have ok: "clean today db self = Inr ()"
    by (auto simp: save_def full_clean_def split: sum.splits)
  then have free: "\<not> slot_taken db self" and date: "\<not> appointment_date self < today"
    and hours: "\<not> out_of_hours db self"
    by (auto simp: clean_cases split: if_splits)
  have "pk r = pk self"
    if "is_active self" "r \<in> set (appointments db)" "is_active r" "slot_key r = slot_key self" for r
    using free that by (auto simp: slot_taken_def own_pk_def split: option.splits if_splits)
  with date hours show ?thesis
    by (auto simp: out_of_hours_def)
qed

theorem saved_was_validated_witness:
  "\<not> (739924::int) < 739924
   \<and> appointments clinic_db = []
   \<and> start_time wednesday_schedule \<le> hm 10 0 \<and> hm 10 0 \<le> end_time wednesday_schedule"
proof -
  let ?a = "new_appointment 7 1 739924 (hm 10 0)"
  have run: "save True 739924 clinic_db ?a = Inr (?a\<lparr>pk := Some 1\<rparr>, booked_db)"
    by (simp add: save_eval fixture_defs clean_eval)
  have s: "working_schedule clinic_db ?a = Some wednesday_schedule"
    by (simp add: fixture_defs working_schedule_def weekday_def)
  from saved_was_validated [OF run] s
  have "\<not> appointment_date ?a < 739924
      \<and> start_time wednesday_schedule \<le> appointment_time ?a
      \<and> appointment_time ?a \<le> end_time wednesday_schedule"
    by blast
  then show ?thesis
    by (simp add: new_appointment_def clinic_db_def)
qed

end
